theory Spec2Isabelle
  imports Main "HOL-Library.Word" "HOL-Library.AList"
begin

text \<open>
  A shallow embedding of three pieces of a SQL query engine: the validation of
  AUTO_INCREMENT columns of a CREATE TABLE statement (\<open>validateAutoIncrement\<close>), the
  membership predicate \<open>InTuple\<close> with its hashed variant \<open>HashInTuple\<close> and the
  analyzer rule \<open>applyHashIn\<close> that substitutes one for the other, and the row
  iterator \<open>errorHandlerIter\<close>.
\<close>

section \<open>Errors\<close>

text \<open>
  The error kinds of the fragment.  The go-errors \<open>Kind\<close>s of the source are the
  constructors; \<open>ErrInvalidOperandColumns\<close> keeps its two arguments.  \<open>EOF\<close> is
  \<open>io.EOF\<close>.  \<open>PanicIndexOutOfRange\<close> is the run-time panic of an index expression
  out of range.  \<open>ErrOther\<close> stands for any error raised by a collaborator that is
  not part of the fragment (a conversion, a comparison, the evaluation of a foreign
  expression, a child iterator).
\<close>

datatype error =
    ErrInvalidAutoIncCols
  | ErrInvalidOperandColumns nat nat
  | ErrUnsupportedInOperand
  | ErrUnsupportedHashInOperand
  | ErrUnsupportedHashInSubexpression
  | ErrCantHashNestedExpression
  | ErrInvalidType
  | ErrInvalidChildrenNumber
  | ErrIndexOutOfBounds
  | PanicIndexOutOfRange
  | EOF
  | ErrOther string

section \<open>CREATE TABLE validation: \<open>validateAutoIncrement\<close>\<close>

text \<open>
  A column of a \<open>sql.Schema\<close>, reduced to the fields \<open>validateAutoIncrement\<close> reads.
  \<open>Default\<close> is a pointer in the source: \<open>None\<close> is \<open>nil\<close>.
\<close>

record Column =
  Name :: string
  AutoIncrement :: bool
  PrimaryKey :: bool
  Default :: "string option"

text \<open>The loop of \<open>validateAutoIncrement\<close>, with the local \<open>seen\<close> as an argument.\<close>

fun autoIncLoop :: "bool \<Rightarrow> Column list \<Rightarrow> error option" where
  "autoIncLoop seen [] = None"
| "autoIncLoop seen (col # cols) =
     (if AutoIncrement col then
        (if \<not> PrimaryKey col then Some ErrInvalidAutoIncCols
         else if Default col \<noteq> None then Some ErrInvalidAutoIncCols
         else if seen then Some ErrInvalidAutoIncCols
         else autoIncLoop True cols)
      else autoIncLoop seen cols)"

definition validateAutoIncrement :: "Column list \<Rightarrow> error option" where
  "validateAutoIncrement schema = autoIncLoop False schema"

section \<open>The error-suppressing row iterator\<close>

text \<open>
  \<open>errorHandlerIter\<close> holds a child iterator and a handler.  The child iterator is
  a state \<open>'s\<close> with its \<open>Next\<close> method; the handler is a callback acting on whatever
  it captured, a state \<open>'h\<close>.  The type of rows is kept abstract.
\<close>

record ('s, 'h, 'r) errorHandlerIter =
  childNext :: "'s \<Rightarrow> ('r \<times> error option) \<times> 's"
  ErrorHandlerFunc :: "error \<Rightarrow> 'h \<Rightarrow> 'h"

definition errorHandlerIter_Next ::
  "('s, 'h, 'r) errorHandlerIter \<Rightarrow> 's \<times> 'h \<Rightarrow> ('r \<times> error option) \<times> ('s \<times> 'h)" where
  "errorHandlerIter_Next e st =
     (case st of (s, h) \<Rightarrow>
        (case childNext e s of ((row, err), s') \<Rightarrow>
           if err = Some EOF then ((row, err), (s', h))
           else (case err of
                   Some er \<Rightarrow> ((row, None), (s', ErrorHandlerFunc e er h))
                 | None \<Rightarrow> ((row, None), (s', h)))))"

section \<open>Values, expressions and the collaborators of the membership predicate\<close>

text \<open>
  A Go \<open>interface{}\<close> value as the predicates see it: \<open>nil\<close>, or a dynamic value.
  \<open>GoSlice\<close> is \<open>[]interface{}\<close>, the value of a row-valued expression.
\<close>

datatype val =
    GoNil
  | GoBool bool
  | GoInt32 "32 word"
  | GoInt64 "64 word"
  | GoString string
  | GoSlice "val list"

text \<open>
  The expression tree, a closed tagged variant of \<open>sql.Expression\<close>.  The type
  parameter \<open>'t\<close> is \<open>sql.Type\<close>.
  \<^item> \<open>Literal value fieldType\<close> and \<open>GetField fieldIndex fieldType\<close> are the leaves;
  \<^item> \<open>Tuple\<close> is the Go slice type \<open>Tuple []sql.Expression\<close>;
  \<^item> \<open>InTuple left right\<close> is the struct of the source (its \<open>BinaryExpression\<close>);
  \<^item> \<open>HashInTuple left right cmp hasNull\<close> is the struct of the source: the embedded
    \<open>InTuple\<close>, the map \<open>cmp\<close> from hash to candidate and the flag \<open>hasNull\<close>.  The
    map is an association list read with \<open>map_of\<close> and written with \<open>AList.update\<close>;
    the \<open>nil\<close> map is the empty list;
  \<^item> \<open>Other tag type children\<close> is any other expression kind (a subquery, a
    function call, a logical connective), opaque to this fragment.
\<close>

datatype 't expr =
    Literal val 't
  | GetField nat 't
  | Tuple "'t expr list"
  | InTuple "'t expr" "'t expr"
  | HashInTuple "'t expr" "'t expr" "(64 word \<times> 't expr) list" bool
  | Other string 't "'t expr list"

text \<open>
  What the fragment consumes and does not build is a parameter, one record of
  functions passed to every operation that needs it:
  \<^item> the \<open>sql.Type\<close> interface: the identity test \<open>t == sql.Null\<close> (\<open>IsNullType\<close>),
    the type assertion \<open>t.(sql.TupleType)\<close> (\<open>AsTupleType\<close>, \<open>None\<close> when it fails),
    \<open>sql.Boolean\<close>, \<open>Promote\<close>, \<open>Convert\<close>, \<open>Compare\<close> and \<open>sql.NumColumns\<close>;
  \<^item> of \<open>Tuple\<close>, the type it declares from the types of its elements
    (\<open>CreateTuple\<close>) and the value it builds from the values of its elements
    (\<open>TupleValue\<close>);
  \<^item> \<open>fmt.Sprintf("%#v", v)\<close> (\<open>GoSyntax\<close>) and the xxhash digest of the bytes
    written (\<open>Sum64\<close>), whose \<open>Write\<close> never fails;
  \<^item> the evaluation of an opaque expression (\<open>OtherEval\<close>).
\<close>

record 't sqlenv =
  IsNullType :: "'t \<Rightarrow> bool"
  AsTupleType :: "'t \<Rightarrow> 't list option"
  CreateTuple :: "'t list \<Rightarrow> 't"
  Boolean :: 't
  Promote :: "'t \<Rightarrow> 't"
  Convert :: "'t \<Rightarrow> val \<Rightarrow> error + val"
  Compare :: "'t \<Rightarrow> val \<Rightarrow> val \<Rightarrow> error + int"
  NumColumns :: "'t \<Rightarrow> nat"
  TupleValue :: "val list \<Rightarrow> val"
  GoSyntax :: "val \<Rightarrow> string"
  Sum64 :: "string \<Rightarrow> 64 word"
  OtherEval :: "string \<Rightarrow> 't expr list \<Rightarrow> val list \<Rightarrow> error + val"

text \<open>
  Modelled from the spec: the \<open>Type\<close> methods of \<open>Literal\<close> and \<open>GetField\<close> (the
  declared type of the pair), of \<open>Tuple\<close> and of the opaque kinds are not in the
  fragment.  \<open>InTuple.Type\<close> is in the source, and \<open>HashInTuple\<close> inherits it from
  the embedded \<open>InTuple\<close>.
\<close>

fun Type :: "'t sqlenv \<Rightarrow> 't expr \<Rightarrow> 't" where
  "Type E (Literal v t) = t"
| "Type E (GetField i t) = t"
| "Type E (Tuple es) = CreateTuple E (map (Type E) es)"
| "Type E (InTuple l r) = Boolean E"
| "Type E (HashInTuple l r cmp hasNull) = Boolean E"
| "Type E (Other tag t cs) = t"

text \<open>
  Modelled from the spec: the \<open>Children\<close> and \<open>WithChildren\<close> methods of \<open>Literal\<close>,
  \<open>GetField\<close>, \<open>Tuple\<close> and the opaque kinds (the ordered list of sub-expressions,
  and a new node of the same kind over a new list of the same length) are not in
  the fragment.  Those of \<open>InTuple\<close> are in the source, and \<open>HashInTuple\<close> does not
  override them: through the embedded \<open>InTuple\<close>, the children of a \<open>HashInTuple\<close>
  are its two operands and \<open>WithChildren\<close> on a \<open>HashInTuple\<close> returns a plain
  \<open>InTuple\<close>.
\<close>

fun Children :: "'t expr \<Rightarrow> 't expr list" where
  "Children (Literal v t) = []"
| "Children (GetField i t) = []"
| "Children (Tuple es) = es"
| "Children (InTuple l r) = [l, r]"
| "Children (HashInTuple l r cmp hasNull) = [l, r]"
| "Children (Other tag t cs) = cs"

definition NewInTuple :: "'t expr \<Rightarrow> 't expr \<Rightarrow> 't expr" where
  "NewInTuple left right = InTuple left right"

definition InTuple_WithChildren :: "'t expr list \<Rightarrow> error + 't expr" where
  "InTuple_WithChildren children =
     (if length children \<noteq> 2 then Inl ErrInvalidChildrenNumber
      else Inr (NewInTuple (children ! 0) (children ! 1)))"

fun WithChildren :: "'t expr \<Rightarrow> 't expr list \<Rightarrow> error + 't expr" where
  "WithChildren (Literal v t) cs =
     (if cs \<noteq> [] then Inl ErrInvalidChildrenNumber else Inr (Literal v t))"
| "WithChildren (GetField i t) cs =
     (if cs \<noteq> [] then Inl ErrInvalidChildrenNumber else Inr (GetField i t))"
| "WithChildren (Tuple es) cs =
     (if length cs \<noteq> length es then Inl ErrInvalidChildrenNumber else Inr (Tuple cs))"
| "WithChildren (InTuple l r) cs = InTuple_WithChildren cs"
| "WithChildren (HashInTuple l r cmp hasNull) cs = InTuple_WithChildren cs"
| "WithChildren (Other tag t es) cs =
     (if length cs \<noteq> length es then Inl ErrInvalidChildrenNumber else Inr (Other tag t cs))"

text \<open>A loop over a list that stops at the first error.\<close>

fun mapE :: "('a \<Rightarrow> error + 'b) \<Rightarrow> 'a list \<Rightarrow> error + 'b list" where
  "mapE f [] = Inr []"
| "mapE f (x # xs) =
     (case f x of
        Inl err \<Rightarrow> Inl err
      | Inr y \<Rightarrow> (case mapE f xs of Inl err \<Rightarrow> Inl err | Inr ys \<Rightarrow> Inr (y # ys)))"

lemma mapE_cong [fundef_cong]:
  "xs = ys \<Longrightarrow> (\<And>x. x \<in> set ys \<Longrightarrow> f x = g x) \<Longrightarrow> mapE f xs = mapE g ys"
  by (induction ys arbitrary: xs) (auto split: sum.splits)

lemma size_Children: "c \<in> set (Children e) \<Longrightarrow> size c < size e"
  by (cases e) (auto simp: less_Suc_eq_le intro: size_list_estimation')

text \<open>
  Modelled from the spec: \<open>expression.TransformUp\<close> is not in the fragment.  It is
  the bottom-up transform: the children are transformed first, in order, the node
  is rebuilt over them with \<open>WithChildren\<close>, and the function is applied to the
  rebuilt node; a node without children is given to the function as it is.
\<close>

function TransformUp :: "('t expr \<Rightarrow> error + 't expr) \<Rightarrow> 't expr \<Rightarrow> error + 't expr" where
  "TransformUp f e =
     (let children = Children e in
      if children = [] then f e
      else (case mapE (TransformUp f) children of
              Inl err \<Rightarrow> Inl err
            | Inr newChildren \<Rightarrow>
                (case WithChildren e newChildren of
                   Inl err \<Rightarrow> Inl err
                 | Inr e' \<Rightarrow> f e')))"
  by pat_completeness auto
termination
  by (relation "measure (\<lambda>(f, e). size e)") (auto simp: size_Children)

declare TransformUp.simps [simp del]

subsection \<open>Hashing: \<open>hashOfLiteral\<close>, \<open>hashOfTuple\<close>, \<open>hashOf\<close>\<close>

text \<open>
  \<open>hashOfLiteral\<close> reads one field of its Literal, the value; that value is the
  argument here.
\<close>

definition hashOfLiteral :: "'t sqlenv \<Rightarrow> val \<Rightarrow> 't \<Rightarrow> error + 64 word" where
  "hashOfLiteral E v t =
     (case Convert E (Promote E t) v of
        Inl err \<Rightarrow> Inl ErrInvalidType
      | Inr i \<Rightarrow> Inr (Sum64 E (GoSyntax E i @ '','')))"

text \<open>
  The loop of \<open>hashOfTuple\<close>: \<open>ts\<close> is what is left of the tuple type at index \<open>i\<close>
  (so \<open>t[i]\<close> panics when it is empty) and \<open>written\<close> the bytes written to the hash
  so far.
\<close>

fun hashOfTupleLoop ::
  "'t sqlenv \<Rightarrow> 't expr list \<Rightarrow> 't list \<Rightarrow> string \<Rightarrow> error + 64 word" where
  "hashOfTupleLoop E [] ts written = Inr (Sum64 E written)"
| "hashOfTupleLoop E (Literal v lt # els) ts written =
     (case ts of
        [] \<Rightarrow> Inl PanicIndexOutOfRange
      | ti # ts' \<Rightarrow>
          (case Convert E (Promote E ti) v of
             Inl err \<Rightarrow> Inl err
           | Inr converted \<Rightarrow>
               hashOfTupleLoop E els ts' (written @ GoSyntax E converted @ '','')))"
| "hashOfTupleLoop E (el # els) ts written = Inl ErrCantHashNestedExpression"

definition hashOfTuple :: "'t sqlenv \<Rightarrow> 't expr list \<Rightarrow> 't list \<Rightarrow> error + 64 word" where
  "hashOfTuple E tup t = hashOfTupleLoop E tup t []"

fun hashOf :: "'t sqlenv \<Rightarrow> 't expr \<Rightarrow> 't \<Rightarrow> error + 64 word" where
  "hashOf E (Tuple v) t =
     (case AsTupleType E t of
        None \<Rightarrow> Inl ErrInvalidType
      | Some tupType \<Rightarrow> hashOfTuple E v tupType)"
| "hashOf E (Literal v lt) t = hashOfLiteral E v t"
| "hashOf E e t = Inl ErrUnsupportedHashInSubexpression"

subsection \<open>Building the index: \<open>newInMap\<close>, \<open>NewHashInTuple\<close>\<close>

text \<open>The type switch \<open>case *Literal, Tuple\<close> of \<open>newInMap\<close>.\<close>

fun isLiteralOrTuple :: "'t expr \<Rightarrow> bool" where
  "isLiteralOrTuple (Literal v t) = True"
| "isLiteralOrTuple (Tuple es) = True"
| "isLiteralOrTuple e = False"

text \<open>
  The loop of \<open>newInMap\<close> over the elements of the right-hand tuple, with the map
  built so far.  \<open>sql.ErrInvalidType.Is(err)\<close> is the test \<open>err = ErrInvalidType\<close>.
\<close>

fun newInMapLoop ::
  "'t sqlenv \<Rightarrow> 't \<Rightarrow> 't expr list \<Rightarrow> (64 word \<times> 't expr) list
     \<Rightarrow> error + (64 word \<times> 't expr) list" where
  "newInMapLoop E lType [] elements = Inr elements"
| "newInMapLoop E lType (el # els) elements =
     (if isLiteralOrTuple el then
        (case hashOf E el lType of
           Inl err \<Rightarrow>
             if err = ErrInvalidType then newInMapLoop E lType els elements else Inl err
         | Inr key \<Rightarrow> newInMapLoop E lType els (AList.update key el elements))
      else Inl ErrUnsupportedHashInSubexpression)"

definition newInMap ::
  "'t sqlenv \<Rightarrow> 't expr \<Rightarrow> 't \<Rightarrow> error + ((64 word \<times> 't expr) list \<times> bool)" where
  "newInMap E expr lType =
     (if IsNullType E lType then Inr ([], True)
      else (case expr of
              Tuple right \<Rightarrow>
                (case newInMapLoop E lType right [] of
                   Inl err \<Rightarrow> Inl err
                 | Inr elements \<Rightarrow> Inr (elements, False))
            | _ \<Rightarrow> Inl ErrUnsupportedHashInOperand))"

definition NewHashInTuple :: "'t sqlenv \<Rightarrow> 't expr \<Rightarrow> 't expr \<Rightarrow> error + 't expr" where
  "NewHashInTuple E left right =
     (case newInMap E right (Type E left) of
        Inl err \<Rightarrow> Inl err
      | Inr (cmp, hasNull) \<Rightarrow> Inr (HashInTuple left right cmp hasNull))"

subsection \<open>Evaluation: \<open>InTuple.Eval\<close>, \<open>HashInTuple.Eval\<close>, \<open>normalizeLeft\<close>\<close>

text \<open>
  Modelled from the spec: \<open>GetField.Eval\<close> is not in the fragment; it is the
  positional reference into the row, an error when the row is too short.  A row is
  the list of its column values.
\<close>

definition GetField_Eval :: "nat \<Rightarrow> val list \<Rightarrow> error + val" where
  "GetField_Eval fieldIndex row =
     (if length row \<le> fieldIndex then Inl ErrIndexOutOfBounds else Inr (row ! fieldIndex))"

text \<open>The function literal that \<open>normalizeLeft\<close> gives to \<open>TransformUp\<close>.\<close>

fun fieldToLiteral :: "val list \<Rightarrow> 't expr \<Rightarrow> error + 't expr" where
  "fieldToLiteral row (GetField i t) =
     (case GetField_Eval i row of Inl err \<Rightarrow> Inl err | Inr v \<Rightarrow> Inr (Literal v t))"
| "fieldToLiteral row e = Inr e"

fun normalizeLeft :: "'t expr \<Rightarrow> val list \<Rightarrow> error + 't expr" where
  "normalizeLeft (Tuple es) row = TransformUp (fieldToLiteral row) (Tuple es)"
| "normalizeLeft (Literal v t) row = Inr (Literal v t)"
| "normalizeLeft (GetField i t) row =
     (case GetField_Eval i row of Inl err \<Rightarrow> Inl err | Inr v \<Rightarrow> Inr (Literal v t))"
| "normalizeLeft e row = Inl ErrUnsupportedHashInOperand"

text \<open>The first loop of \<open>InTuple.Eval\<close>: the arity of every element of the right side.\<close>

fun arityLoop :: "'t sqlenv \<Rightarrow> nat \<Rightarrow> 't expr list \<Rightarrow> error option" where
  "arityLoop E leftElems [] = None"
| "arityLoop E leftElems (el # els) =
     (if NumColumns E (Type E el) \<noteq> leftElems
      then Some (ErrInvalidOperandColumns leftElems (NumColumns E (Type E el)))
      else arityLoop E leftElems els)"

text \<open>
  The second loop of \<open>InTuple.Eval\<close>, with the local \<open>rightNull\<close> as an argument.
  The list holds, for each element of the right side in order, the result of its
  \<open>Eval\<close>; the loop reads a result only when it reaches it, so an element behind
  the one that ends the loop has no effect, as in the source, where it is not
  evaluated.
\<close>

fun scanLoop ::
  "'t sqlenv \<Rightarrow> 't \<Rightarrow> val \<Rightarrow> bool \<Rightarrow> (error + val) list \<Rightarrow> error + val" where
  "scanLoop E typ left rightNull [] = (if rightNull then Inr GoNil else Inr (GoBool False))"
| "scanLoop E typ left rightNull (r # rs) =
     (case r of
        Inl err \<Rightarrow> Inl err
      | Inr right \<Rightarrow>
          if \<not> rightNull \<and> right = GoNil then scanLoop E typ left True rs
          else (case Convert E typ right of
                  Inl err \<Rightarrow> Inl err
                | Inr right' \<Rightarrow>
                    (case Compare E typ left right' of
                       Inl err \<Rightarrow> Inl err
                     | Inr cmp \<Rightarrow>
                         if cmp = 0 then Inr (GoBool True)
                         else scanLoop E typ left rightNull rs)))"

text \<open>
  The same loop with what it does to its collaborator made visible: next to the
  result, the calls of \<open>typ.Convert\<close> and \<open>typ.Compare\<close> it makes, in order, each
  with its arguments.
\<close>

datatype typeCall = CallConvert val | CallCompare val val

fun scanLoopTraced ::
  "'t sqlenv \<Rightarrow> 't \<Rightarrow> val \<Rightarrow> bool \<Rightarrow> (error + val) list
     \<Rightarrow> (error + val) \<times> typeCall list" where
  "scanLoopTraced E typ left rightNull [] =
     (if rightNull then Inr GoNil else Inr (GoBool False), [])"
| "scanLoopTraced E typ left rightNull (r # rs) =
     (case r of
        Inl err \<Rightarrow> (Inl err, [])
      | Inr right \<Rightarrow>
          if \<not> rightNull \<and> right = GoNil then scanLoopTraced E typ left True rs
          else (case Convert E typ right of
                  Inl err \<Rightarrow> (Inl err, [CallConvert right])
                | Inr right' \<Rightarrow>
                    (case Compare E typ left right' of
                       Inl err \<Rightarrow> (Inl err, [CallConvert right, CallCompare left right'])
                     | Inr cmp \<Rightarrow>
                         if cmp = 0
                         then (Inr (GoBool True), [CallConvert right, CallCompare left right'])
                         else (case scanLoopTraced E typ left rightNull rs of
                                 (result, calls) \<Rightarrow>
                                   (result,
                                    CallConvert right # CallCompare left right' # calls)))))"

lemma mapE_size:
  "mapE g xs = Inr ys \<Longrightarrow> (\<And>x y. x \<in> set xs \<Longrightarrow> g x = Inr y \<Longrightarrow> size y \<le> size x)
     \<Longrightarrow> size_list size ys \<le> size_list size xs \<and> length ys = length xs"
proof (induction xs arbitrary: ys)
  case Nil
  then show ?case by simp
next
  case (Cons x xs)
  from Cons.prems(1) obtain y ys' where y: "g x = Inr y" and ys': "mapE g xs = Inr ys'"
    and eq: "ys = y # ys'"
    by (auto split: sum.splits)
  have "size y \<le> size x" using Cons.prems(2) y by simp
  moreover have "size_list size ys' \<le> size_list size xs \<and> length ys' = length xs"
    using Cons.IH [OF ys'] Cons.prems(2) by simp
  ultimately show ?case using eq by simp
qed

lemma fieldToLiteral_size: "fieldToLiteral row e = Inr e' \<Longrightarrow> size e' \<le> size e"
  by (cases e) (auto split: sum.splits)

lemma WithChildren_size:
  "WithChildren e cs = Inr e' \<Longrightarrow> size_list size cs \<le> size_list size (Children e)
     \<Longrightarrow> size e' \<le> size e"
proof (cases e)
  case (InTuple l r)
  assume a: "WithChildren e cs = Inr e'" "size_list size cs \<le> size_list size (Children e)"
  then obtain a b where "cs = [a, b]"
    using InTuple
    by (auto simp: InTuple_WithChildren_def length_Suc_conv numeral_2_eq_2 split: if_splits)
  then show ?thesis using a InTuple by (auto simp: InTuple_WithChildren_def NewInTuple_def)
next
  case (HashInTuple l r m b)
  assume a: "WithChildren e cs = Inr e'" "size_list size cs \<le> size_list size (Children e)"
  then obtain a b where "cs = [a, b]"
    using HashInTuple
    by (auto simp: InTuple_WithChildren_def length_Suc_conv numeral_2_eq_2 split: if_splits)
  then show ?thesis using a HashInTuple by (auto simp: InTuple_WithChildren_def NewInTuple_def)
qed (auto split: if_splits)

lemma TransformUp_size:
  assumes f: "\<And>e e'. f e = Inr e' \<Longrightarrow> size e' \<le> size e"
  shows "TransformUp f e = Inr e' \<Longrightarrow> size e' \<le> size e"
proof (induction e arbitrary: e' rule: measure_induct_rule [where f = size])
  case (less e)
  show ?case
  proof (cases "Children e = []")
    case True
    then have "f e = Inr e'" using less.prems by (simp add: TransformUp.simps)
    then show ?thesis by (rule f)
  next
    case False
    from less.prems False obtain cs e1 where
      cs: "mapE (TransformUp f) (Children e) = Inr cs" and
      e1: "WithChildren e cs = Inr e1" and fe: "f e1 = Inr e'"
      by (auto simp: TransformUp.simps [of f e] split: sum.splits)
    have "size_list size cs \<le> size_list size (Children e)"
      using mapE_size [OF cs] less.IH size_Children by blast
    then have "size e1 \<le> size e" using WithChildren_size [OF e1] by simp
    moreover have "size e' \<le> size e1" using fe by (rule f)
    ultimately show ?thesis by simp
  qed
qed

lemma normalizeLeft_size: "normalizeLeft l row = Inr l' \<Longrightarrow> size l' \<le> size l"
proof (cases l)
  case (Tuple es)
  assume "normalizeLeft l row = Inr l'"
  then show ?thesis
    using Tuple TransformUp_size [of "fieldToLiteral row" "Tuple es" l'] fieldToLiteral_size
    by auto
qed (auto split: sum.splits)

lemma size_elem: "x \<in> set xs \<Longrightarrow> size x \<le> Suc (k + size_list size xs)"
  using size_list_estimation' [of x xs "size x" size] by simp

text \<open>
  Modelled from the spec: the \<open>Eval\<close> methods of \<open>Literal\<close> (its value), \<open>GetField\<close>
  and \<open>Tuple\<close> (the values of its elements, in order, the first error ending it)
  are not in the fragment.  The equations of \<open>InTuple\<close> and \<open>HashInTuple\<close> are the
  two \<open>Eval\<close> methods of the source: in the first, \<open>typ\<close> and \<open>leftElems\<close> are
  computed before the left operand is evaluated, and a right operand that is not
  a \<open>Tuple\<close> is an error only once the left value is known and converted.
\<close>

function (sequential) Eval :: "'t sqlenv \<Rightarrow> 't expr \<Rightarrow> val list \<Rightarrow> error + val" where
  "Eval E (Literal v t) row = Inr v"
| "Eval E (GetField i t) row = GetField_Eval i row"
| "Eval E (Tuple es) row =
     (case mapE (\<lambda>e. Eval E e row) es of
        Inl err \<Rightarrow> Inl err
      | Inr result \<Rightarrow> Inr (TupleValue E result))"
| "Eval E (InTuple l r) row =
     (let typ = Promote E (Type E l);
          leftElems = NumColumns E typ in
      case Eval E l row of
        Inl err \<Rightarrow> Inl err
      | Inr left \<Rightarrow>
          if left = GoNil then Inr GoNil
          else (case Convert E typ left of
                  Inl err \<Rightarrow> Inl err
                | Inr left' \<Rightarrow>
                    (case r of
                       Tuple right \<Rightarrow>
                         (case arityLoop E leftElems right of
                            Some err \<Rightarrow> Inl err
                          | None \<Rightarrow>
                              scanLoop E typ left' False (map (\<lambda>el. Eval E el row) right))
                     | _ \<Rightarrow> Inl ErrUnsupportedInOperand)))"
| "Eval E (HashInTuple l r cmp hasNull) row =
     (if hasNull then Inr GoNil
      else (case normalizeLeft l row of
              Inl err \<Rightarrow> Inl err
            | Inr left \<Rightarrow>
                (let leftElems = NumColumns E (Promote E (Type E left)) in
                 case Eval E left row of
                   Inl err \<Rightarrow> Inl err
                 | Inr leftVal \<Rightarrow>
                     if leftVal = GoNil then Inr GoNil
                     else (case hashOf E left (Type E l) of
                             Inl err \<Rightarrow> Inl err
                           | Inr key \<Rightarrow>
                               (case map_of cmp key of
                                  None \<Rightarrow> Inr (GoBool False)
                                | Some right \<Rightarrow>
                                    if NumColumns E (Promote E (Type E right)) \<noteq> leftElems
                                    then Inl (ErrInvalidOperandColumns leftElems
                                           (NumColumns E (Promote E (Type E right))))
                                    else Inr (GoBool True))))))"
| "Eval E (Other tag t cs) row = OtherEval E tag cs row"
  by pat_completeness auto
termination
proof (relation "measure (\<lambda>(E, e, row). size e)")
  show "wf (measure (\<lambda>(E :: 't sqlenv, e :: 't expr, row :: val list). size e))" by simp
qed (auto simp: less_Suc_eq_le size_elem dest: normalizeLeft_size intro: size_list_estimation')

section \<open>The analyzer rule \<open>applyHashIn\<close>\<close>

text \<open>
  Modelled from the spec: the plan nodes and \<open>plan.TransformUpCtx\<close> are not in the
  fragment.  A plan is a tree of nodes; \<open>Filter expression child\<close> is the node that
  holds a boolean expression, \<open>PlanNode name children\<close> any other node.
  \<open>Filter.WithExpressions\<close> replaces the expression of a filter.
  \<open>TransformUpCtx\<close> is the bottom-up transform of a plan: children first, in order,
  the node rebuilt over them, and the function applied to the rebuilt node.
  \<open>applyHashIn\<close> passes no selector and its function reads only the node of the
  context, so the context is reduced to the node.
\<close>

datatype 't node =
    Filter "'t expr" "'t node"
  | PlanNode string "'t node list"

fun Node_Children :: "'t node \<Rightarrow> 't node list" where
  "Node_Children (Filter e child) = [child]"
| "Node_Children (PlanNode name children) = children"

fun Node_WithChildren :: "'t node \<Rightarrow> 't node list \<Rightarrow> error + 't node" where
  "Node_WithChildren (Filter e child) cs =
     (if length cs \<noteq> 1 then Inl ErrInvalidChildrenNumber else Inr (Filter e (cs ! 0)))"
| "Node_WithChildren (PlanNode name children) cs =
     (if length cs \<noteq> length children then Inl ErrInvalidChildrenNumber
      else Inr (PlanNode name cs))"

fun Filter_WithExpressions :: "'t node \<Rightarrow> 't expr list \<Rightarrow> error + 't node" where
  "Filter_WithExpressions (Filter e child) exprs =
     (if length exprs \<noteq> 1 then Inl ErrInvalidChildrenNumber
      else Inr (Filter (exprs ! 0) child))"
| "Filter_WithExpressions n exprs = Inl ErrInvalidChildrenNumber"

lemma size_Node_Children: "c \<in> set (Node_Children n) \<Longrightarrow> size c < size n"
  by (cases n) (auto simp: less_Suc_eq_le intro: size_list_estimation')

function TransformUpCtx :: "('t node \<Rightarrow> error + 't node) \<Rightarrow> 't node \<Rightarrow> error + 't node" where
  "TransformUpCtx f n =
     (let children = Node_Children n in
      if children = [] then f n
      else (case mapE (TransformUpCtx f) children of
              Inl err \<Rightarrow> Inl err
            | Inr childrenNodes \<Rightarrow>
                (case Node_WithChildren n childrenNodes of
                   Inl err \<Rightarrow> Inl err
                 | Inr n' \<Rightarrow> f n')))"
  by pat_completeness auto
termination
  by (relation "measure (\<lambda>(f, n). size n)") (auto simp: size_Node_Children)

declare TransformUpCtx.simps [simp del]

text \<open>
  The inner type switch of \<open>applyHashIn\<close> on the left operand:
  \<open>case expression.Tuple, *expression.Literal, *expression.GetField\<close>.
\<close>

fun eligibleLeft :: "'t expr \<Rightarrow> bool" where
  "eligibleLeft (Tuple es) = True"
| "eligibleLeft (Literal v t) = True"
| "eligibleLeft (GetField i t) = True"
| "eligibleLeft e = False"

text \<open>
  The function literal that \<open>applyHashIn\<close> gives to \<open>expression.TransformUp\<close>.  The
  outer type switch matches \<open>*expression.InTuple\<close> only: a \<open>*HashInTuple\<close> is another
  dynamic type and falls to the default.
\<close>

fun hashInRewrite :: "'t sqlenv \<Rightarrow> 't expr \<Rightarrow> error + 't expr" where
  "hashInRewrite E (InTuple l r) =
     (if eligibleLeft l then NewHashInTuple E l r else Inr (InTuple l r))"
| "hashInRewrite E expr = Inr expr"

text \<open>The function literal that \<open>applyHashIn\<close> gives to \<open>plan.TransformUpCtx\<close>.\<close>

fun applyHashInNode :: "'t sqlenv \<Rightarrow> 't node \<Rightarrow> error + 't node" where
  "applyHashInNode E (Filter expression child) =
     (case TransformUp (hashInRewrite E) expression of
        Inl err \<Rightarrow> Inl err
      | Inr e \<Rightarrow> Filter_WithExpressions (Filter expression child) [e])"
| "applyHashInNode E n = Inr n"

definition applyHashIn :: "'t sqlenv \<Rightarrow> 't node \<Rightarrow> error + 't node" where
  "applyHashIn E n = TransformUpCtx (applyHashInNode E) n"

section \<open>An implementation of the collaborators, for concrete inputs\<close>

text \<open>
  Modelled from the spec: the types of the \<open>sql\<close> package, \<open>fmt\<close> and xxhash are not
  in the fragment.  This is a small implementation of the parameters, used where a
  property is evaluated at a concrete input.  Its types are the null type, a
  boolean, a 32-bit and a 64-bit integer (the 32-bit one promotes to the 64-bit
  one) and tuples.  Every conversion returns \<open>nil\<close> for \<open>nil\<close>.  Conversion to an
  integer type accepts booleans and integers of either width; conversion to a
  tuple type accepts a slice of the length of the type, converted column by
  column.  A comparison with \<open>nil\<close> on one side only never returns 0.  A tuple type has the sum of the column
  counts of its elements.  Integers print in decimal.  The digest is the 64-bit
  FNV-1a hash, standing for xxhash: the fragment relies on nothing but its being a
  function of the bytes written.  An opaque expression does not evaluate.
\<close>

datatype sqltype = TNull | TBoolean | TInt32 | TInt64 | TTuple "sqltype list"

fun exPromote :: "sqltype \<Rightarrow> sqltype" where
  "exPromote TInt32 = TInt64"
| "exPromote (TTuple ts) = TTuple (map exPromote ts)"
| "exPromote t = t"

fun exNumColumns :: "sqltype \<Rightarrow> nat" where
  "exNumColumns (TTuple ts) = sum_list (map exNumColumns ts)"
| "exNumColumns t = 1"

fun exAsTupleType :: "sqltype \<Rightarrow> sqltype list option" where
  "exAsTupleType (TTuple ts) = Some ts"
| "exAsTupleType t = None"

fun exConvertAll ::
  "(sqltype \<Rightarrow> val \<Rightarrow> error + val) \<Rightarrow> sqltype list \<Rightarrow> val list \<Rightarrow> error + val list" where
  "exConvertAll c [] [] = Inr []"
| "exConvertAll c (t # ts) (v # vs) =
     (case c t v of
        Inl err \<Rightarrow> Inl err
      | Inr v' \<Rightarrow>
          (case exConvertAll c ts vs of Inl err \<Rightarrow> Inl err | Inr vs' \<Rightarrow> Inr (v' # vs')))"
| "exConvertAll c ts vs = Inl (ErrOther ''invalid column number'')"

lemma exConvertAll_cong [fundef_cong]:
  "ts = ts' \<Longrightarrow> vs = vs' \<Longrightarrow> (\<And>t v. t \<in> set ts' \<Longrightarrow> c t v = c' t v)
     \<Longrightarrow> exConvertAll c ts vs = exConvertAll c' ts' vs'"
  by (induction c ts' vs' arbitrary: ts vs rule: exConvertAll.induct) (auto split: sum.splits)

fun exConvert :: "sqltype \<Rightarrow> val \<Rightarrow> error + val" where
  "exConvert TNull v = (if v = GoNil then Inr GoNil else Inl (ErrOther ''value not nil''))"
| "exConvert (TTuple ts) v =
     (case v of
        GoNil \<Rightarrow> Inr GoNil
      | GoSlice vs \<Rightarrow>
          (case exConvertAll exConvert ts vs of
             Inl err \<Rightarrow> Inl err
           | Inr vs' \<Rightarrow> Inr (GoSlice vs'))
      | _ \<Rightarrow> Inl (ErrOther ''not a tuple''))"
| "exConvert TInt64 v =
     (case v of
        GoNil \<Rightarrow> Inr GoNil
      | GoBool b \<Rightarrow> Inr (GoInt64 (if b then 1 else 0))
      | GoInt32 w \<Rightarrow> Inr (GoInt64 (scast w))
      | GoInt64 w \<Rightarrow> Inr (GoInt64 w)
      | _ \<Rightarrow> Inl (ErrOther ''invalid value''))"
| "exConvert TInt32 v =
     (case v of
        GoNil \<Rightarrow> Inr GoNil
      | GoBool b \<Rightarrow> Inr (GoInt32 (if b then 1 else 0))
      | GoInt32 w \<Rightarrow> Inr (GoInt32 w)
      | GoInt64 w \<Rightarrow> Inr (GoInt32 (ucast w))
      | _ \<Rightarrow> Inl (ErrOther ''invalid value''))"
| "exConvert TBoolean v =
     (case v of
        GoNil \<Rightarrow> Inr GoNil
      | GoBool b \<Rightarrow> Inr (GoBool b)
      | _ \<Rightarrow> Inl (ErrOther ''invalid value''))"

fun exCompare :: "sqltype \<Rightarrow> val \<Rightarrow> val \<Rightarrow> error + int" where
  "exCompare t GoNil GoNil = Inr 0"
| "exCompare t GoNil b = Inr 1"
| "exCompare t a GoNil = Inr (- 1)"
| "exCompare t (GoInt64 a) (GoInt64 b) = Inr (if a = b then 0 else if a <s b then - 1 else 1)"
| "exCompare t (GoInt32 a) (GoInt32 b) = Inr (if a = b then 0 else if a <s b then - 1 else 1)"
| "exCompare t (GoBool a) (GoBool b) = Inr (if a = b then 0 else if b then - 1 else 1)"
| "exCompare t (GoSlice a) (GoSlice b) = Inr (if a = b then 0 else 1)"
| "exCompare t a b = Inl (ErrOther ''invalid type'')"

fun showNat :: "nat \<Rightarrow> string" where
  "showNat n =
     (if n < 10 then [''0123456789'' ! n]
      else showNat (n div 10) @ [''0123456789'' ! (n mod 10)])"

declare showNat.simps [simp del]

definition showInt :: "int \<Rightarrow> string" where
  "showInt i = (if i < 0 then CHR ''-'' # showNat (nat (- i)) else showNat (nat i))"

fun exGoSyntax :: "val \<Rightarrow> string" where
  "exGoSyntax GoNil = ''<nil>''"
| "exGoSyntax (GoBool b) = (if b then ''true'' else ''false'')"
| "exGoSyntax (GoInt32 w) = showInt (sint w)"
| "exGoSyntax (GoInt64 w) = showInt (sint w)"
| "exGoSyntax (GoString s) = CHR 0x22 # s @ [CHR 0x22]"
| "exGoSyntax (GoSlice vs) =
     ''[]interface {}{'' @ concat (map (\<lambda>v. exGoSyntax v @ '', '') vs) @ ''}''"

definition exSum64 :: "string \<Rightarrow> 64 word" where
  "exSum64 s =
     fold (\<lambda>c h. (xor h (of_nat (of_char c))) * 1099511628211) s 14695981039346656037"

definition exEnv :: "sqltype sqlenv" where
  "exEnv = \<lparr> IsNullType = (\<lambda>t. t = TNull), AsTupleType = exAsTupleType,
     CreateTuple = TTuple, Boolean = TBoolean, Promote = exPromote, Convert = exConvert,
     Compare = exCompare, NumColumns = exNumColumns, TupleValue = GoSlice,
     GoSyntax = exGoSyntax, Sum64 = exSum64,
     OtherEval = (\<lambda>tag cs row. Inl (ErrOther tag)) \<rparr>"

lemma exEnv_simps [simp]:
  "IsNullType exEnv t = (t = TNull)"
  "AsTupleType exEnv = exAsTupleType"
  "CreateTuple exEnv = TTuple"
  "Boolean exEnv = TBoolean"
  "Promote exEnv = exPromote"
  "Convert exEnv = exConvert"
  "Compare exEnv = exCompare"
  "NumColumns exEnv = exNumColumns"
  "TupleValue exEnv = GoSlice"
  "GoSyntax exEnv = exGoSyntax"
  "Sum64 exEnv = exSum64"
  "OtherEval exEnv tag cs row = Inl (ErrOther tag)"
  by (simp_all add: exEnv_def)

section \<open>Properties of \<open>validateAutoIncrement\<close>\<close>

lemma autoIncLoop_kind: "autoIncLoop seen cols = Some e \<Longrightarrow> e = ErrInvalidAutoIncCols"
  by (induction cols arbitrary: seen) (auto split: if_splits)

lemma autoIncLoop_iff:
  "autoIncLoop seen cols = Some ErrInvalidAutoIncCols \<longleftrightarrow>
     (\<exists>c \<in> set cols. AutoIncrement c \<and> (\<not> PrimaryKey c \<or> Default c \<noteq> None))
     \<or> (if seen then 1 else 0) + length (filter AutoIncrement cols) > 1"
proof (induction cols arbitrary: seen)
  case Nil
  show ?case by simp
next
  case (Cons col cols)
  show ?case
  proof (cases "AutoIncrement col")
    case False
    then show ?thesis using Cons.IH [of seen] by simp
  next
    case ai: True
    show ?thesis
    proof (cases "\<not> PrimaryKey col \<or> Default col \<noteq> None")
      case True
      then show ?thesis using ai by auto
    next
      case ok: False
      show ?thesis
      proof (cases seen)
        case True
        then show ?thesis using ai ok by simp
      next
        case False
        then show ?thesis using ai ok Cons.IH [of True] by auto
      qed
    qed
  qed
qed

text \<open>
  C10.  For every schema, \<open>validateAutoIncrement\<close> returns an
  \<open>ErrInvalidAutoIncCols\<close> error if and only if the schema contains an
  AUTO_INCREMENT column that is not a primary key, or that has a non-nil default,
  or that is not the only AUTO_INCREMENT column (the schema has more than one);
  otherwise it returns nil.
\<close>

theorem validateAutoIncrement_iff:
  "(validateAutoIncrement schema = Some ErrInvalidAutoIncCols \<longleftrightarrow>
      (\<exists>c \<in> set schema. AutoIncrement c \<and> (\<not> PrimaryKey c \<or> Default c \<noteq> None))
      \<or> length (filter AutoIncrement schema) > 1)
   \<and> (validateAutoIncrement schema = None \<or>
      validateAutoIncrement schema = Some ErrInvalidAutoIncCols)"
proof
  show "validateAutoIncrement schema = Some ErrInvalidAutoIncCols \<longleftrightarrow>
      (\<exists>c \<in> set schema. AutoIncrement c \<and> (\<not> PrimaryKey c \<or> Default c \<noteq> None))
      \<or> length (filter AutoIncrement schema) > 1"
    unfolding validateAutoIncrement_def using autoIncLoop_iff [of False schema] by simp
next
  show "validateAutoIncrement schema = None \<or>
      validateAutoIncrement schema = Some ErrInvalidAutoIncCols"
    unfolding validateAutoIncrement_def
    by (cases "autoIncLoop False schema") (auto dest: autoIncLoop_kind)
qed

theorem validateAutoIncrement_iff_witness:
  "validateAutoIncrement
     [\<lparr>Name = ''id'', AutoIncrement = True, PrimaryKey = True, Default = None\<rparr>,
      \<lparr>Name = ''n'', AutoIncrement = True, PrimaryKey = True, Default = None\<rparr>]
     = Some ErrInvalidAutoIncCols
   \<and> validateAutoIncrement
     [\<lparr>Name = ''id'', AutoIncrement = True, PrimaryKey = True, Default = None\<rparr>,
      \<lparr>Name = ''n'', AutoIncrement = False, PrimaryKey = False, Default = Some ''0''\<rparr>]
     = None"
  using validateAutoIncrement_iff
    [of "[\<lparr>Name = ''id'', AutoIncrement = True, PrimaryKey = True, Default = None\<rparr>,
      \<lparr>Name = ''n'', AutoIncrement = True, PrimaryKey = True, Default = None\<rparr>]"]
    validateAutoIncrement_iff
    [of "[\<lparr>Name = ''id'', AutoIncrement = True, PrimaryKey = True, Default = None\<rparr>,
      \<lparr>Name = ''n'', AutoIncrement = False, PrimaryKey = False, Default = Some ''0''\<rparr>]"]
  by (simp add: validateAutoIncrement_def)

section \<open>Properties of \<open>errorHandlerIter.Next\<close>\<close>

text \<open>
  C9.  For every call to \<open>errorHandlerIter.Next\<close>: if the child iterator returns
  \<open>io.EOF\<close>, that error is returned to the caller together with the child's row and
  the handler is not called; if the child returns any other error, the handler is
  called with that error and \<open>Next\<close> returns the child's row with a nil error; if
  the child returns no error, its row is forwarded with a nil error and the handler
  is not called.
\<close>

theorem errorHandlerIter_Next_cases:
  "childNext e s = ((row, err), s') \<Longrightarrow>
     errorHandlerIter_Next e (s, h) =
       (if err = Some EOF then ((row, Some EOF), (s', h))
        else if err = None then ((row, None), (s', h))
        else ((row, None), (s', ErrorHandlerFunc e (the err) h)))"
  by (auto simp: errorHandlerIter_Next_def split: option.splits)

theorem errorHandlerIter_Next_cases_witness:
  "errorHandlerIter_Next
     \<lparr>childNext = (\<lambda>s. case s of [] \<Rightarrow> (([], Some EOF), []) | x # xs \<Rightarrow> (x, xs)),
      ErrorHandlerFunc = (\<lambda>er h. er # h)\<rparr>
     ([([1::nat], Some (ErrOther ''duplicate key''))], [])
   = (([1], None), ([], [ErrOther ''duplicate key'']))"
  using errorHandlerIter_Next_cases
    [of "\<lparr>childNext = (\<lambda>s. case s of [] \<Rightarrow> (([], Some EOF), []) | x # xs \<Rightarrow> (x, xs)),
      ErrorHandlerFunc = (\<lambda>er h. er # h)\<rparr>"
     "[([1::nat], Some (ErrOther ''duplicate key''))]" "[1]"
     "Some (ErrOther ''duplicate key'')" "[]" "[]"]
  by simp

section \<open>Properties of \<open>hashOfLiteral\<close>\<close>

text \<open>
  C8.  For every comparison type \<open>t\<close> and every pair of Literals whose values
  convert to the same canonical value under the promoted type of \<open>t\<close>,
  \<open>hashOfLiteral\<close> returns the same 64-bit key for both, whatever their original
  representations: the key is the digest of the printed canonical value.
\<close>

theorem hashOfLiteral_canonical:
  "Convert E (Promote E t) v1 = Inr c \<Longrightarrow> Convert E (Promote E t) v2 = Inr c \<Longrightarrow>
     hashOfLiteral E v1 t = hashOfLiteral E v2 t
     \<and> hashOfLiteral E v1 t = Inr (Sum64 E (GoSyntax E c @ '',''))"
  by (simp add: hashOfLiteral_def)

text \<open>
  The 32-bit and the 64-bit representation of 5, against a 64-bit integer column.
\<close>

theorem hashOfLiteral_canonical_witness:
  "hashOfLiteral exEnv (GoInt32 5) TInt64 = hashOfLiteral exEnv (GoInt64 5) TInt64
   \<and> hashOfLiteral exEnv (GoInt32 5) TInt64 = Inr (exSum64 ''5,'')"
  using hashOfLiteral_canonical [of exEnv TInt64 "GoInt32 5" "GoInt64 5" "GoInt64 5"]
  by (auto simp: showInt_def showNat.simps)

section \<open>Properties of \<open>HashInTuple.Eval\<close>\<close>

lemma NewHashInTuple_shape:
  "NewHashInTuple E l r = Inr h \<Longrightarrow>
     h = HashInTuple l r (fst (projr (newInMap E r (Type E l)))) (IsNullType E (Type E l))
     \<and> (IsNullType E (Type E l) \<longrightarrow> fst (projr (newInMap E r (Type E l))) = [])"
  by (auto simp: NewHashInTuple_def newInMap_def split: sum.splits expr.splits if_splits)

text \<open>
  C3.  For a \<open>HashInTuple\<close> built by \<open>NewHashInTuple\<close>, \<open>Eval\<close> returns null exactly
  when the declared type of the left operand is the null type (the index was then
  built with the flag set and no entries) or the left operand, made a Literal for
  the current row, evaluates to null; and whenever the key of the left value is
  absent from the index, \<open>Eval\<close> returns false, not null.
\<close>

theorem HashInTuple_Eval_null_iff:
  assumes "NewHashInTuple E left right = Inr hit"
  shows "(Eval E hit row = Inr GoNil \<longleftrightarrow>
            IsNullType E (Type E left)
            \<or> (\<exists>l'. normalizeLeft left row = Inr l' \<and> Eval E l' row = Inr GoNil))
       \<and> (IsNullType E (Type E left) \<longrightarrow> hit = HashInTuple left right [] True)
       \<and> (\<forall>cmp hasNull l' v key.
            hit = HashInTuple left right cmp hasNull \<and> \<not> IsNullType E (Type E left)
            \<and> normalizeLeft left row = Inr l' \<and> Eval E l' row = Inr v \<and> v \<noteq> GoNil
            \<and> hashOf E l' (Type E left) = Inr key \<and> map_of cmp key = None
            \<longrightarrow> Eval E hit row = Inr (GoBool False))"
proof -
  obtain cmp where hit: "hit = HashInTuple left right cmp (IsNullType E (Type E left))"
    and empty: "IsNullType E (Type E left) \<longrightarrow> cmp = []"
    using NewHashInTuple_shape [OF assms] by blast
  have a: "Eval E hit row = Inr GoNil \<longleftrightarrow>
            IsNullType E (Type E left)
            \<or> (\<exists>l'. normalizeLeft left row = Inr l' \<and> Eval E l' row = Inr GoNil)"
    unfolding hit by (auto simp: Let_def split: sum.splits option.splits)
  have b: "IsNullType E (Type E left) \<longrightarrow> hit = HashInTuple left right [] True"
    using hit empty by simp
  have c: "\<forall>cmp hasNull l' v key.
            hit = HashInTuple left right cmp hasNull \<and> \<not> IsNullType E (Type E left)
            \<and> normalizeLeft left row = Inr l' \<and> Eval E l' row = Inr v \<and> v \<noteq> GoNil
            \<and> hashOf E l' (Type E left) = Inr key \<and> map_of cmp key = None
            \<longrightarrow> Eval E hit row = Inr (GoBool False)"
    unfolding hit by (auto simp: Let_def)
  from a b c show ?thesis by blast
qed

theorem HashInTuple_Eval_null_iff_witness:
  "Eval exEnv (HashInTuple (GetField 0 TInt64) (Tuple [Literal (GoInt64 1) TInt64])
       [(574373912330768240, Literal (GoInt64 1) TInt64)] False) [GoNil] = Inr GoNil
   \<and> Eval exEnv (HashInTuple (GetField 0 TInt64) (Tuple [Literal (GoInt64 1) TInt64])
       [(574373912330768240, Literal (GoInt64 1) TInt64)] False) [GoInt64 5] = Inr (GoBool False)
   \<and> NewHashInTuple exEnv (Literal GoNil TNull) (Tuple [Literal (GoInt64 1) TInt64])
       = Inr (HashInTuple (Literal GoNil TNull) (Tuple [Literal (GoInt64 1) TInt64]) [] True)"
proof -
  have build: "NewHashInTuple exEnv (GetField 0 TInt64) (Tuple [Literal (GoInt64 1) TInt64])
    = Inr (HashInTuple (GetField 0 TInt64) (Tuple [Literal (GoInt64 1) TInt64])
       [(574373912330768240, Literal (GoInt64 1) TInt64)] False)"
    by (simp add: NewHashInTuple_def newInMap_def hashOfLiteral_def exSum64_def showInt_def
        showNat.simps)
  have build0: "NewHashInTuple exEnv (Literal GoNil TNull) (Tuple [Literal (GoInt64 1) TInt64])
       = Inr (HashInTuple (Literal GoNil TNull) (Tuple [Literal (GoInt64 1) TInt64]) [] True)"
    by (simp add: NewHashInTuple_def newInMap_def)
  show ?thesis
    using build0 HashInTuple_Eval_null_iff [OF build, of "[GoNil]"]
      HashInTuple_Eval_null_iff [OF build, of "[GoInt64 5]"]
      HashInTuple_Eval_null_iff [OF build0, of "[]"]
    by (simp add: GetField_Eval_def hashOfLiteral_def exSum64_def showInt_def showNat.simps)
qed


section \<open>Properties of \<open>applyHashIn\<close>\<close>

lemma TransformUp_InTuple:
  "TransformUp f (InTuple l r) =
     (case TransformUp f l of
        Inl err \<Rightarrow> Inl err
      | Inr l' \<Rightarrow>
          (case TransformUp f r of Inl err \<Rightarrow> Inl err | Inr r' \<Rightarrow> f (InTuple l' r')))"
  by (simp add: TransformUp.simps [of f "InTuple l r"] InTuple_WithChildren_def NewInTuple_def
      split: sum.splits)

lemma TransformUp_HashInTuple:
  "TransformUp f (HashInTuple l r cmp hasNull) =
     (case TransformUp f l of
        Inl err \<Rightarrow> Inl err
      | Inr l' \<Rightarrow>
          (case TransformUp f r of Inl err \<Rightarrow> Inl err | Inr r' \<Rightarrow> f (InTuple l' r')))"
  by (simp add: TransformUp.simps [of f "HashInTuple l r cmp hasNull"]
      InTuple_WithChildren_def NewInTuple_def split: sum.splits)

lemma mapE_length: "mapE g xs = Inr ys \<Longrightarrow> length ys = length xs"
  by (induction xs arbitrary: ys) (auto split: sum.splits)

lemma TransformUp_Other:
  "TransformUp (hashInRewrite E) (Other tag t cs) = Inr e' \<Longrightarrow> \<exists>cs'. e' = Other tag t cs'"
  by (auto simp: TransformUp.simps [of _ "Other tag t cs"] Let_def
      split: if_splits sum.splits dest: mapE_length)

lemma NewHashInTuple_kind:
  "NewHashInTuple E l r = Inr h \<Longrightarrow> \<exists>cmp hasNull. h = HashInTuple l r cmp hasNull"
  by (auto simp: NewHashInTuple_def split: sum.splits)

lemma hashInRewrite_InTuple_kind:
  "hashInRewrite E (InTuple l r) = Inr h \<Longrightarrow> \<not> eligibleLeft h"
  by (auto split: if_splits dest: NewHashInTuple_kind)

lemma ineligible_preserved:
  "\<not> eligibleLeft l \<Longrightarrow> TransformUp (hashInRewrite E) l = Inr l' \<Longrightarrow> \<not> eligibleLeft l'"
proof (cases l)
  case (InTuple a b)
  assume "TransformUp (hashInRewrite E) l = Inr l'"
  then show ?thesis unfolding InTuple TransformUp_InTuple
    by (auto simp del: hashInRewrite.simps split: sum.splits dest: hashInRewrite_InTuple_kind)
next
  case (HashInTuple a b m hn)
  assume "TransformUp (hashInRewrite E) l = Inr l'"
  then show ?thesis unfolding HashInTuple TransformUp_HashInTuple
    by (auto simp del: hashInRewrite.simps split: sum.splits dest: hashInRewrite_InTuple_kind)
next
  case (Other tag t cs)
  assume "TransformUp (hashInRewrite E) l = Inr l'"
  then show ?thesis unfolding Other by (auto dest: TransformUp_Other)
qed auto

lemma applyHashIn_Filter:
  "applyHashIn E (Filter e child) =
     (case applyHashIn E child of
        Inl err \<Rightarrow> Inl err
      | Inr child' \<Rightarrow>
          (case TransformUp (hashInRewrite E) e of
             Inl err \<Rightarrow> Inl err
           | Inr e' \<Rightarrow> Inr (Filter e' child')))"
  by (simp add: applyHashIn_def TransformUpCtx.simps [of _ "Filter e child"]
      split: sum.splits)

text \<open>
  C6.  \<open>applyHashIn\<close> rewrites an \<open>InTuple\<close> into a \<open>HashInTuple\<close> only when the left
  operand is a Literal, a GetField or a Tuple.  For an \<open>InTuple\<close> whose left operand
  is of any other kind (a subquery, say), the function given to \<open>TransformUp\<close>
  returns the predicate as it is, and the pass over a filter holding it returns
  the filter with an \<open>InTuple\<close> over the transformed operands: no \<open>HashInTuple\<close> is
  produced for it.
\<close>

theorem applyHashIn_ineligible_left:
  "(hashInRewrite E (InTuple l r) = Inr (HashInTuple a b cmp hasNull) \<longrightarrow> eligibleLeft l)
   \<and> (\<not> eligibleLeft l \<longrightarrow> hashInRewrite E (InTuple l r) = Inr (InTuple l r))
   \<and> (\<not> eligibleLeft l \<and> TransformUp (hashInRewrite E) l = Inr l'
        \<and> TransformUp (hashInRewrite E) r = Inr r' \<and> applyHashIn E child = Inr child'
      \<longrightarrow> applyHashIn E (Filter (InTuple l r) child) = Inr (Filter (InTuple l' r') child'))"
proof -
  have "\<not> eligibleLeft l \<Longrightarrow> TransformUp (hashInRewrite E) l = Inr l' \<Longrightarrow>
      TransformUp (hashInRewrite E) r = Inr r' \<Longrightarrow> applyHashIn E child = Inr child' \<Longrightarrow>
      applyHashIn E (Filter (InTuple l r) child) = Inr (Filter (InTuple l' r') child')"
    using ineligible_preserved [of l E l']
    by (simp add: applyHashIn_Filter TransformUp_InTuple)
  then show ?thesis by auto
qed

theorem applyHashIn_ineligible_left_witness:
  "applyHashIn exEnv
     (Filter (InTuple (Other ''Subquery'' TInt64 [])
        (Tuple [Literal (GoInt64 1) TInt64, Literal (GoInt64 2) TInt64]))
        (PlanNode ''Table'' []))
   = Inr (Filter (InTuple (Other ''Subquery'' TInt64 [])
        (Tuple [Literal (GoInt64 1) TInt64, Literal (GoInt64 2) TInt64]))
        (PlanNode ''Table'' []))"
proof -
  have l: "TransformUp (hashInRewrite exEnv) (Other ''Subquery'' TInt64 [])
      = Inr (Other ''Subquery'' TInt64 [])"
    by (simp add: TransformUp.simps)
  have r: "TransformUp (hashInRewrite exEnv)
        (Tuple [Literal (GoInt64 1) TInt64, Literal (GoInt64 2) TInt64])
      = Inr (Tuple [Literal (GoInt64 1) TInt64, Literal (GoInt64 2) TInt64])"
    by (simp add: TransformUp.simps)
  have c: "applyHashIn exEnv (PlanNode ''Table'' []) = Inr (PlanNode ''Table'' [])"
    by (simp add: applyHashIn_def TransformUpCtx.simps)
  show ?thesis
    using applyHashIn_ineligible_left [where E = exEnv and l = "Other ''Subquery'' TInt64 []"
        and r = "Tuple [Literal (GoInt64 1) TInt64, Literal (GoInt64 2) TInt64]"
        and l' = "Other ''Subquery'' TInt64 []"
        and r' = "Tuple [Literal (GoInt64 1) TInt64, Literal (GoInt64 2) TInt64]"
        and child = "PlanNode ''Table'' []" and child' = "PlanNode ''Table'' []"] l r c
    by simp
qed

text \<open>
  The claim C1 says that a failing index construction leaves the \<open>InTuple\<close> in place
  and that the pass returns without error.  For \<open>x IN (1, y)\<close>, \<open>y\<close> a column
  reference, the construction fails and the pass returns that failure.
\<close>

theorem applyHashIn_build_failure_counterexample:
  "newInMap exEnv (Tuple [Literal (GoInt64 1) TInt64, GetField 1 TInt64])
       (Type exEnv (GetField 0 TInt64)) = Inl ErrUnsupportedHashInSubexpression
   \<and> applyHashIn exEnv
       (Filter (InTuple (GetField 0 TInt64)
          (Tuple [Literal (GoInt64 1) TInt64, GetField 1 TInt64]))
          (PlanNode ''Table'' []))
     = Inl ErrUnsupportedHashInSubexpression"
  by (simp add: applyHashIn_def TransformUpCtx.simps TransformUp.simps newInMap_def
      NewHashInTuple_def InTuple_WithChildren_def NewInTuple_def hashOfLiteral_def)

text \<open>
  C1 (amended).  When the left operand of an \<open>InTuple\<close> offered to the rewrite is a
  Literal, a GetField or a Tuple and the construction of the index fails, the
  function given to \<open>TransformUp\<close> returns the error of the construction, and
  \<open>applyHashIn\<close> on a filter holding that \<open>InTuple\<close> returns this error and no plan.
\<close>

theorem applyHashIn_build_failure:
  assumes "TransformUp (hashInRewrite E) l = Inr l'"
      and "TransformUp (hashInRewrite E) r = Inr r'"
      and "eligibleLeft l'"
      and "newInMap E r' (Type E l') = Inl err"
      and "applyHashIn E child = Inr child'"
  shows "hashInRewrite E (InTuple l' r') = Inl err
       \<and> applyHashIn E (Filter (InTuple l r) child) = Inl err"
  using assms by (simp add: applyHashIn_Filter TransformUp_InTuple NewHashInTuple_def)

theorem applyHashIn_build_failure_witness:
  "applyHashIn exEnv
       (Filter (InTuple (GetField 0 TInt64)
          (Tuple [Literal (GoInt64 1) TInt64, GetField 1 TInt64]))
          (PlanNode ''Table'' []))
     = Inl ErrUnsupportedHashInSubexpression"
proof -
  have l: "TransformUp (hashInRewrite exEnv) (GetField 0 TInt64) = Inr (GetField 0 TInt64)"
    by (simp add: TransformUp.simps)
  have r: "TransformUp (hashInRewrite exEnv)
        (Tuple [Literal (GoInt64 1) TInt64, GetField 1 TInt64])
      = Inr (Tuple [Literal (GoInt64 1) TInt64, GetField 1 TInt64])"
    by (simp add: TransformUp.simps)
  have e: "eligibleLeft (GetField 0 TInt64 :: sqltype expr)" by simp
  have m: "newInMap exEnv (Tuple [Literal (GoInt64 1) TInt64, GetField 1 TInt64])
       (Type exEnv (GetField 0 TInt64)) = Inl ErrUnsupportedHashInSubexpression"
    by (simp add: newInMap_def hashOfLiteral_def)
  have c: "applyHashIn exEnv (PlanNode ''Table'' []) = Inr (PlanNode ''Table'' [])"
    by (simp add: applyHashIn_def TransformUpCtx.simps)
  show ?thesis using applyHashIn_build_failure [OF l r e m c] by simp
qed


lemma mapE_fixed:
  "mapE g xs = Inr ys \<Longrightarrow> (\<And>x y. x \<in> set xs \<Longrightarrow> g x = Inr y \<Longrightarrow> g y = Inr y)
     \<Longrightarrow> mapE g ys = Inr ys"
proof (induction xs arbitrary: ys)
  case Nil
  then show ?case by simp
next
  case (Cons x xs)
  from Cons.prems(1) obtain y ys' where y: "g x = Inr y" and ys': "mapE g xs = Inr ys'"
    and eq: "ys = y # ys'"
    by (auto split: sum.splits)
  have "g y = Inr y" using Cons.prems(2) [of x y] y by simp
  moreover have "mapE g ys' = Inr ys'" using Cons.IH [OF ys'] Cons.prems(2) by auto
  ultimately show ?case using eq by simp
qed

lemma hashInRewrite_leaf:
  "Children e = [] \<Longrightarrow> hashInRewrite E e = Inr e"
  by (cases e) auto

lemma WithChildren_cases:
  assumes "WithChildren e cs = Inr e1" and "Children e \<noteq> []"
    and "length cs = length (Children e)"
  shows "(\<exists>l r. cs = [l, r] \<and> e1 = InTuple l r)
       \<or> (Children e1 = cs \<and> WithChildren e1 cs = Inr e1 \<and> hashInRewrite E e1 = Inr e1)"
proof (cases e)
  case (InTuple l r)
  then obtain a b where "cs = [a, b]"
    using assms(3) by (auto simp: length_Suc_conv)
  then show ?thesis using assms(1) InTuple
    by (simp add: InTuple_WithChildren_def NewInTuple_def)
next
  case (HashInTuple l r m hn)
  then obtain a b where "cs = [a, b]"
    using assms(3) by (auto simp: length_Suc_conv)
  then show ?thesis using assms(1) HashInTuple
    by (simp add: InTuple_WithChildren_def NewInTuple_def)
qed (use assms in \<open>auto split: if_splits\<close>)

lemma TransformUp_idem:
  "TransformUp (hashInRewrite E) e = Inr e' \<Longrightarrow> TransformUp (hashInRewrite E) e' = Inr e'"
proof (induction e arbitrary: e' rule: measure_induct_rule [where f = size])
  case (less e)
  let ?T = "TransformUp (hashInRewrite E)"
  show ?case
  proof (cases "Children e = []")
    case True
    then have "e' = e" using less.prems hashInRewrite_leaf [of e E]
      by (simp add: TransformUp.simps [of _ e])
    then show ?thesis using less.prems by simp
  next
    case False
    from less.prems False obtain cs e1 where
      cs: "mapE ?T (Children e) = Inr cs" and
      e1: "WithChildren e cs = Inr e1" and fe: "hashInRewrite E e1 = Inr e'"
      by (auto simp: TransformUp.simps [of _ e] split: sum.splits)
    have fixed: "mapE ?T cs = Inr cs"
      using mapE_fixed [OF cs] less.IH size_Children by blast
    have len: "length cs = length (Children e)" using cs by (rule mapE_length)
    then have ne: "cs \<noteq> []" using False by auto
    from WithChildren_cases [OF e1 False len, of E] show ?thesis
    proof
      assume "\<exists>l r. cs = [l, r] \<and> e1 = InTuple l r"
      then obtain l r where lr: "cs = [l, r]" "e1 = InTuple l r" by blast
      from fixed lr have Tl: "?T l = Inr l" and Tr: "?T r = Inr r"
        by (auto split: sum.splits)
      show ?thesis
      proof (cases "eligibleLeft l")
        case True
        then have "NewHashInTuple E l r = Inr e'" using fe lr by simp
        then obtain m hn where e': "e' = HashInTuple l r m hn"
          using NewHashInTuple_kind by blast
        show ?thesis unfolding e' TransformUp_HashInTuple
          using Tl Tr fe lr e' by simp
      next
        case False
        then have "e' = InTuple l r" using fe lr by simp
        then show ?thesis using Tl Tr fe lr by (simp add: TransformUp_InTuple)
      qed
    next
      assume a: "Children e1 = cs \<and> WithChildren e1 cs = Inr e1 \<and> hashInRewrite E e1 = Inr e1"
      then have "e' = e1" using fe by simp
      then show ?thesis using a fixed ne by (simp add: TransformUp.simps [of _ e1])
    qed
  qed
qed

lemma applyHashInNode_PlanNode: "applyHashInNode E (PlanNode name cs) = Inr (PlanNode name cs)"
  by simp

lemma applyHashIn_idem_aux:
  "TransformUpCtx (applyHashInNode E) n = Inr n' \<Longrightarrow>
     TransformUpCtx (applyHashInNode E) n' = Inr n'"
proof (induction n arbitrary: n' rule: measure_induct_rule [where f = size])
  case (less n)
  let ?T = "TransformUpCtx (applyHashInNode E)"
  show ?case
  proof (cases n)
    case (Filter e child)
    from less.prems obtain child' e' where
      c: "?T child = Inr child'" and e: "TransformUp (hashInRewrite E) e = Inr e'"
      and n': "n' = Filter e' child'"
      unfolding Filter
      by (auto simp: TransformUpCtx.simps [of _ "Filter e child"] split: sum.splits)
    have "?T child' = Inr child'" using less.IH [of child child'] c Filter by simp
    moreover have "TransformUp (hashInRewrite E) e' = Inr e'" using e by (rule TransformUp_idem)
    ultimately show ?thesis unfolding n'
      by (simp add: TransformUpCtx.simps [of _ "Filter e' child'"])
  next
    case (PlanNode name children)
    show ?thesis
    proof (cases "children = []")
      case True
      then have "n' = PlanNode name []" using less.prems PlanNode
        by (simp add: TransformUpCtx.simps [of _ "PlanNode name []"])
      then show ?thesis by (simp add: TransformUpCtx.simps [of _ "PlanNode name []"])
    next
      case False
      from less.prems False obtain cs where
        cs: "mapE ?T children = Inr cs" and n': "n' = PlanNode name cs"
        unfolding PlanNode
        by (auto simp: TransformUpCtx.simps [of _ "PlanNode name children"]
            split: sum.splits if_splits)
      have "mapE ?T cs = Inr cs"
        using mapE_fixed [OF cs] less.IH size_Node_Children [of _ n] PlanNode by auto
      moreover have "cs \<noteq> []" using mapE_length [OF cs] False by auto
      ultimately show ?thesis unfolding n'
        by (simp add: TransformUpCtx.simps [of _ "PlanNode name cs"])
    qed
  qed
qed

text \<open>
  C7.  Applying \<open>applyHashIn\<close> to the plan it returned yields that same plan; and
  the function given to \<open>TransformUp\<close> returns a \<open>HashInTuple\<close> node as it is, the
  node not being of the type its type switch matches.
\<close>

theorem applyHashIn_idempotent:
  "(applyHashIn E n = Inr n' \<longrightarrow> applyHashIn E n' = Inr n')
   \<and> hashInRewrite E (HashInTuple l r cmp hasNull) = Inr (HashInTuple l r cmp hasNull)"
  using applyHashIn_idem_aux [of E n n'] by (simp add: applyHashIn_def)

theorem applyHashIn_idempotent_witness:
  "applyHashIn exEnv
     (Filter (InTuple (GetField 0 TInt64)
        (Tuple [Literal (GoInt64 1) TInt64, Literal (GoInt32 2) TInt32]))
        (PlanNode ''Table'' []))
   = Inr (Filter (HashInTuple (GetField 0 TInt64)
        (Tuple [Literal (GoInt64 1) TInt64, Literal (GoInt32 2) TInt32])
        [(574373912330768240, Literal (GoInt64 1) TInt64),
         (577331598610088155, Literal (GoInt32 2) TInt32)] False)
        (PlanNode ''Table'' []))
   \<and> applyHashIn exEnv
     (Filter (HashInTuple (GetField 0 TInt64)
        (Tuple [Literal (GoInt64 1) TInt64, Literal (GoInt32 2) TInt32])
        [(574373912330768240, Literal (GoInt64 1) TInt64),
         (577331598610088155, Literal (GoInt32 2) TInt32)] False)
        (PlanNode ''Table'' []))
   = Inr (Filter (HashInTuple (GetField 0 TInt64)
        (Tuple [Literal (GoInt64 1) TInt64, Literal (GoInt32 2) TInt32])
        [(574373912330768240, Literal (GoInt64 1) TInt64),
         (577331598610088155, Literal (GoInt32 2) TInt32)] False)
        (PlanNode ''Table'' []))"
proof -
  have once: "applyHashIn exEnv
     (Filter (InTuple (GetField 0 TInt64)
        (Tuple [Literal (GoInt64 1) TInt64, Literal (GoInt32 2) TInt32]))
        (PlanNode ''Table'' []))
   = Inr (Filter (HashInTuple (GetField 0 TInt64)
        (Tuple [Literal (GoInt64 1) TInt64, Literal (GoInt32 2) TInt32])
        [(574373912330768240, Literal (GoInt64 1) TInt64),
         (577331598610088155, Literal (GoInt32 2) TInt32)] False)
        (PlanNode ''Table'' []))"
    by (simp add: applyHashIn_def TransformUpCtx.simps TransformUp.simps newInMap_def
        NewHashInTuple_def InTuple_WithChildren_def NewInTuple_def hashOfLiteral_def
        exSum64_def showInt_def showNat.simps)
  show ?thesis
    using once applyHashIn_idempotent [where E = exEnv and n = "Filter (InTuple (GetField 0 TInt64)
        (Tuple [Literal (GoInt64 1) TInt64, Literal (GoInt32 2) TInt32]))
        (PlanNode ''Table'' [])" and n' = "Filter (HashInTuple (GetField 0 TInt64)
        (Tuple [Literal (GoInt64 1) TInt64, Literal (GoInt32 2) TInt32])
        [(574373912330768240, Literal (GoInt64 1) TInt64),
         (577331598610088155, Literal (GoInt32 2) TInt32)] False)
        (PlanNode ''Table'' [])"]
    by simp
qed


section \<open>Properties of \<open>InTuple.Eval\<close>\<close>

lemma arityLoop_None:
  "(\<forall>el\<in>set els. NumColumns E (Type E el) = n) \<Longrightarrow> arityLoop E n els = None"
  by (induction els) auto

lemma arityLoop_first:
  "(\<forall>p\<in>set pre. NumColumns E (Type E p) = n) \<Longrightarrow> NumColumns E (Type E el) \<noteq> n \<Longrightarrow>
     arityLoop E n (pre @ el # post) = Some (ErrInvalidOperandColumns n (NumColumns E (Type E el)))"
  by (induction pre) auto

lemma scanLoop_skip:
  "(\<forall>r\<in>set pre. \<exists>pv pc c. r = Inr pv \<and> pv \<noteq> GoNil \<and> Convert E typ pv = Inr pc
       \<and> Compare E typ lc pc = Inr c \<and> c \<noteq> 0) \<Longrightarrow>
     scanLoop E typ lc rightNull (pre @ rest) = scanLoop E typ lc rightNull rest"
  by (induction pre) auto

lemma InTuple_Eval_Tuple:
  "Eval E l row = Inr lv \<Longrightarrow> lv \<noteq> GoNil \<Longrightarrow> Convert E (Promote E (Type E l)) lv = Inr lc \<Longrightarrow>
     Eval E (InTuple l (Tuple right)) row =
       (case arityLoop E (NumColumns E (Promote E (Type E l))) right of
          Some err \<Rightarrow> Inl err
        | None \<Rightarrow> scanLoop E (Promote E (Type E l)) lc False (map (\<lambda>el. Eval E el row) right))"
  by (simp add: Let_def)

text \<open>
  The claim C5 says that the arity of an element is verified just before the
  element is evaluated and compared, so that after a match no later arity is
  checked.  In \<open>1 IN (1, (1, 2))\<close> the first element is equal to the left value, and
  the result is the arity error of the second.
\<close>

theorem InTuple_Eval_short_circuit_counterexample:
  "exCompare TInt64 (GoInt64 1) (GoInt64 1) = Inr 0
   \<and> Eval exEnv (InTuple (Literal (GoInt64 1) TInt64)
        (Tuple [Literal (GoInt64 1) TInt64,
                Tuple [Literal (GoInt64 1) TInt64, Literal (GoInt64 2) TInt64]])) []
     = Inl (ErrInvalidOperandColumns 1 2)"
  by simp

text \<open>
  C5 (amended).  \<open>InTuple.Eval\<close>, once the left operand has evaluated to a non-null
  value and has been converted, first verifies the arity of every right-hand
  element, in declared order, and returns the arity error of the first element
  whose arity differs from that of the left operand, before any element is
  evaluated or compared.  When all arities match, it evaluates and compares the
  elements one at a time in declared order and returns true at the first equality:
  the elements behind it have no effect on the result.
\<close>

theorem InTuple_Eval_arity_then_scan:
  assumes "Eval E l row = Inr lv" and "lv \<noteq> GoNil"
    and "Convert E (Promote E (Type E l)) lv = Inr lc"
  shows "((\<forall>p\<in>set pre. NumColumns E (Type E p) = NumColumns E (Promote E (Type E l)))
            \<and> NumColumns E (Type E el) \<noteq> NumColumns E (Promote E (Type E l))
          \<longrightarrow> Eval E (InTuple l (Tuple (pre @ el # post))) row =
                Inl (ErrInvalidOperandColumns (NumColumns E (Promote E (Type E l)))
                      (NumColumns E (Type E el))))
       \<and> ((\<forall>p\<in>set (pre @ el # post).
               NumColumns E (Type E p) = NumColumns E (Promote E (Type E l)))
            \<and> (\<forall>p\<in>set pre. \<exists>pv pc c. Eval E p row = Inr pv \<and> pv \<noteq> GoNil
                  \<and> Convert E (Promote E (Type E l)) pv = Inr pc
                  \<and> Compare E (Promote E (Type E l)) lc pc = Inr c \<and> c \<noteq> 0)
            \<and> (\<exists>rv rc. Eval E el row = Inr rv \<and> rv \<noteq> GoNil
                  \<and> Convert E (Promote E (Type E l)) rv = Inr rc
                  \<and> Compare E (Promote E (Type E l)) lc rc = Inr 0)
          \<longrightarrow> Eval E (InTuple l (Tuple (pre @ el # post))) row = Inr (GoBool True))"
proof (intro conjI impI)
  assume "(\<forall>p\<in>set pre. NumColumns E (Type E p) = NumColumns E (Promote E (Type E l)))
            \<and> NumColumns E (Type E el) \<noteq> NumColumns E (Promote E (Type E l))"
  then show "Eval E (InTuple l (Tuple (pre @ el # post))) row =
                Inl (ErrInvalidOperandColumns (NumColumns E (Promote E (Type E l)))
                      (NumColumns E (Type E el)))"
    unfolding InTuple_Eval_Tuple [OF assms]
    using arityLoop_first [of pre E "NumColumns E (Promote E (Type E l))" el post]
    by simp
next
  assume a: "(\<forall>p\<in>set (pre @ el # post).
               NumColumns E (Type E p) = NumColumns E (Promote E (Type E l)))
            \<and> (\<forall>p\<in>set pre. \<exists>pv pc c. Eval E p row = Inr pv \<and> pv \<noteq> GoNil
                  \<and> Convert E (Promote E (Type E l)) pv = Inr pc
                  \<and> Compare E (Promote E (Type E l)) lc pc = Inr c \<and> c \<noteq> 0)
            \<and> (\<exists>rv rc. Eval E el row = Inr rv \<and> rv \<noteq> GoNil
                  \<and> Convert E (Promote E (Type E l)) rv = Inr rc
                  \<and> Compare E (Promote E (Type E l)) lc rc = Inr 0)"
  then have ar: "arityLoop E (NumColumns E (Promote E (Type E l))) (pre @ el # post) = None"
    by (intro arityLoop_None) simp
  from a obtain rv rc where el: "Eval E el row = Inr rv" "rv \<noteq> GoNil"
      "Convert E (Promote E (Type E l)) rv = Inr rc"
      "Compare E (Promote E (Type E l)) lc rc = Inr 0"
    by blast
  have pre: "\<forall>r\<in>set (map (\<lambda>el. Eval E el row) pre). \<exists>pv pc c. r = Inr pv \<and> pv \<noteq> GoNil
      \<and> Convert E (Promote E (Type E l)) pv = Inr pc
      \<and> Compare E (Promote E (Type E l)) lc pc = Inr c \<and> c \<noteq> 0"
    using a by auto
  have "scanLoop E (Promote E (Type E l)) lc False
          (map (\<lambda>el. Eval E el row) (pre @ el # post)) = Inr (GoBool True)"
    using scanLoop_skip [OF pre, of False "Inr rv # map (\<lambda>el. Eval E el row) post"] el
    by simp
  then show "Eval E (InTuple l (Tuple (pre @ el # post))) row = Inr (GoBool True)"
    unfolding InTuple_Eval_Tuple [OF assms] using ar by simp
qed

text \<open>
  In the second input the element behind the match is a subquery whose evaluation
  fails.
\<close>

theorem InTuple_Eval_arity_then_scan_witness:
  "Eval exEnv (InTuple (Literal (GoInt64 1) TInt64)
        (Tuple ([Literal (GoInt64 1) TInt64]
           @ Tuple [Literal (GoInt64 1) TInt64, Literal (GoInt64 2) TInt64] # []))) []
     = Inl (ErrInvalidOperandColumns 1 2)
   \<and> Eval exEnv (InTuple (Literal (GoInt64 1) TInt64)
        (Tuple ([Literal (GoInt64 2) TInt64]
           @ Literal (GoInt32 1) TInt32 # [Other ''Subquery'' TInt64 []]))) []
     = Inr (GoBool True)
   \<and> Eval exEnv (Other ''Subquery'' TInt64 []) [] = Inl (ErrOther ''Subquery'')"
  using InTuple_Eval_arity_then_scan [where E = exEnv and l = "Literal (GoInt64 1) TInt64"
      and row = "[]" and lv = "GoInt64 1" and lc = "GoInt64 1"
      and pre = "[Literal (GoInt64 1) TInt64]"
      and el = "Tuple [Literal (GoInt64 1) TInt64, Literal (GoInt64 2) TInt64]"
      and post = "[]"]
    InTuple_Eval_arity_then_scan [where E = exEnv and l = "Literal (GoInt64 1) TInt64"
      and row = "[]" and lv = "GoInt64 1" and lc = "GoInt64 1"
      and pre = "[Literal (GoInt64 2) TInt64]"
      and el = "Literal (GoInt32 1) TInt32"
      and post = "[Other ''Subquery'' TInt64 []]"]
  by simp

lemma scanLoopTraced_result:
  "fst (scanLoopTraced E typ left rightNull rs) = scanLoop E typ left rightNull rs"
  by (induction rs arbitrary: rightNull) (auto simp: case_prod_beta split: sum.splits)

text \<open>
  C4.  The claim says that every right-hand element that evaluates to null is
  skipped without being converted or compared.  The test of the source is
  \<open>!rightNull && right == nil\<close>, so only the first null element is skipped: when
  two elements evaluate to null, the second one is handed to \<open>typ.Convert\<close>, and
  what \<open>Convert\<close> returns for it to \<open>typ.Compare\<close>.  The result of
  \<open>left IN (NULL, NULL)\<close> is what they make of \<open>nil\<close>: the error of either, true
  when the comparison returns 0, and null otherwise.  The second conjunct lists the
  calls of the loop, the third says that the traced loop is the one of this
  evaluation.
\<close>

theorem InTuple_Eval_second_null:
  assumes "Eval E l row = Inr lv" and "lv \<noteq> GoNil"
    and "Convert E (Promote E (Type E l)) lv = Inr lc"
    and "NumColumns E (Type E n1) = NumColumns E (Promote E (Type E l))"
    and "NumColumns E (Type E n2) = NumColumns E (Promote E (Type E l))"
    and "Eval E n1 row = Inr GoNil" and "Eval E n2 row = Inr GoNil"
  shows "Eval E (InTuple l (Tuple [n1, n2])) row =
           (case Convert E (Promote E (Type E l)) GoNil of
              Inl err \<Rightarrow> Inl err
            | Inr right \<Rightarrow>
                (case Compare E (Promote E (Type E l)) lc right of
                   Inl err \<Rightarrow> Inl err
                 | Inr cmp \<Rightarrow> if cmp = 0 then Inr (GoBool True) else Inr GoNil))
       \<and> snd (scanLoopTraced E (Promote E (Type E l)) lc False
                (map (\<lambda>el. Eval E el row) [n1, n2])) =
           CallConvert GoNil #
             (case Convert E (Promote E (Type E l)) GoNil of
                Inl err \<Rightarrow> []
              | Inr right \<Rightarrow> [CallCompare lc right])
       \<and> fst (scanLoopTraced E (Promote E (Type E l)) lc False
                (map (\<lambda>el. Eval E el row) [n1, n2])) =
           Eval E (InTuple l (Tuple [n1, n2])) row"
proof (intro conjI)
  show "Eval E (InTuple l (Tuple [n1, n2])) row =
           (case Convert E (Promote E (Type E l)) GoNil of
              Inl err \<Rightarrow> Inl err
            | Inr right \<Rightarrow>
                (case Compare E (Promote E (Type E l)) lc right of
                   Inl err \<Rightarrow> Inl err
                 | Inr cmp \<Rightarrow> if cmp = 0 then Inr (GoBool True) else Inr GoNil))"
    unfolding InTuple_Eval_Tuple [OF assms(1-3)]
    using assms(4-7) by (simp split: sum.splits)
next
  show "snd (scanLoopTraced E (Promote E (Type E l)) lc False
                (map (\<lambda>el. Eval E el row) [n1, n2])) =
           CallConvert GoNil #
             (case Convert E (Promote E (Type E l)) GoNil of
                Inl err \<Rightarrow> []
              | Inr right \<Rightarrow> [CallCompare lc right])"
    using assms(6,7) by (simp add: case_prod_beta split: sum.splits)
next
  show "fst (scanLoopTraced E (Promote E (Type E l)) lc False
                (map (\<lambda>el. Eval E el row) [n1, n2])) =
           Eval E (InTuple l (Tuple [n1, n2])) row"
    unfolding InTuple_Eval_Tuple [OF assms(1-3)] scanLoopTraced_result
    using assms(4,5) by simp
qed

text \<open>
  \<open>1 IN (NULL, NULL)\<close> over a 64-bit integer: the second \<open>NULL\<close> is converted and
  compared with 1; the comparison does not return 0 and the result is null.
\<close>

theorem InTuple_Eval_second_null_witness:
  "Eval exEnv
     (InTuple (Literal (GoInt64 1) TInt64)
        (Tuple [Literal GoNil TNull, Literal GoNil TNull])) []
   = Inr GoNil
   \<and> snd (scanLoopTraced exEnv TInt64 (GoInt64 1) False [Inr GoNil, Inr GoNil])
   = [CallConvert GoNil, CallCompare (GoInt64 1) GoNil]"
  using InTuple_Eval_second_null [where E = exEnv
      and l = "Literal (GoInt64 1) TInt64"
      and row = "[]" and lv = "GoInt64 1" and lc = "GoInt64 1"
      and ?n1.0 = "Literal GoNil TNull" and ?n2.0 = "Literal GoNil TNull"]
  by simp

section \<open>Agreement of \<open>HashInTuple.Eval\<close> and \<open>InTuple.Eval\<close>\<close>

















text \<open>
  A candidate that does not convert to the type of the left operand separates the
  two as well: \<open>newInMap\<close> leaves it out of the index, \<open>InTuple.Eval\<close> returns the
  conversion error when it reaches it.  Here \<open>x IN ('abc', 5)\<close> with \<open>x\<close> bound to 5.
\<close>

lemma conversion_failure_example:
  "NewHashInTuple exEnv (GetField 0 TInt64)
       (Tuple [Literal (GoString ''abc'') TInt64, Literal (GoInt64 5) TInt64])
     = Inr (HashInTuple (GetField 0 TInt64)
         (Tuple [Literal (GoString ''abc'') TInt64, Literal (GoInt64 5) TInt64])
         [(570574000144427924, Literal (GoInt64 5) TInt64)] False)
   \<and> Eval exEnv (HashInTuple (GetField 0 TInt64)
         (Tuple [Literal (GoString ''abc'') TInt64, Literal (GoInt64 5) TInt64])
         [(570574000144427924, Literal (GoInt64 5) TInt64)] False) [GoInt64 5]
     = Inr (GoBool True)
   \<and> Eval exEnv (InTuple (GetField 0 TInt64)
         (Tuple [Literal (GoString ''abc'') TInt64, Literal (GoInt64 5) TInt64])) [GoInt64 5]
     = Inl (ErrOther ''invalid value'')"
  by (simp add: NewHashInTuple_def newInMap_def hashOfLiteral_def exSum64_def showInt_def
      showNat.simps GetField_Eval_def)



end
